theory Spec2Isabelle
  imports Complex_Main "HOL-Library.FSet"
begin

section \<open>Python values read by the matching loop\<close>

text \<open>
  The engine of \<^verbatim>\<open>main.py\<close> reads listings and order responses that the gateway SDK
  decoded from JSON.  A listing field is a scalar: \<^verbatim>\<open>None\<close>, an integer, a (finite) JSON
  number or a string; booleans and nested values in a listing are not modelled.  A
  dictionary is an association list that holds each key once, and \<^verbatim>\<open>d.get(k)\<close> is a
  lookup that yields \<^verbatim>\<open>None\<close> for a missing key.
\<close>

datatype pyval = PNone | PInt int | PFloat real | PStr string

type_synonym pydict = "(string \<times> pyval) list"

text \<open>
  A Python \<^verbatim>\<open>float\<close>: a finite double is represented by the real number it denotes
  (comparison and truncation of doubles are exact on that number); \<^verbatim>\<open>float("inf")\<close>,
  \<^verbatim>\<open>float("-inf")\<close> and \<^verbatim>\<open>float("nan")\<close> are the three special values.
\<close>

datatype pyfloat = Fin real | PosInf | NegInf | NaN

datatype py_exc = ValueError | TypeError | OverflowError | AttributeError

text \<open>Instants are naive UTC datetimes, counted in microseconds.\<close>

type_synonym time = int

text \<open>
  What \<^verbatim>\<open>datetime.fromisoformat(item["timestamp"])\<close> makes of a history item: a naive
  datetime, an offset-aware datetime (the string carries a UTC offset), or an exception
  (missing key, not a string, not ISO format).
\<close>

datatype ts_field = Naive time | Aware time | Malformed

text \<open>
  Values found inside an order response, and the response itself: \<^verbatim>\<open>None\<close>, a
  dictionary, or any other object the SDK method returned.
\<close>

datatype resp_val = RV pyval | RDictV pydict | RListV "pyval list"

datatype order_resp = RespNone | RespDict "(string \<times> resp_val) list" | RespOther

record hist_item =
  h_order_response :: order_resp
  h_ad_id :: pyval
  h_ad_price :: pyfloat
  h_ad_raw :: pydict
  h_amount :: int
  h_timestamp :: ts_field

text \<open>
  The observable effects of the engine, in the order in which they happen: the log lines
  of \<^verbatim>\<open>create_buy_order\<close> (no client, listing without identifier, no method succeeded),
  a call of an SDK order method with its \<^verbatim>\<open>advertisementId\<close> and \<^verbatim>\<open>amount\<close>, the log lines
  of the loop (order attempt, infeasible amount, exception in the loop body, exception in
  the outer handler), \<^verbatim>\<open>save_state\<close>, the notification task for a listing, price, amount
  and order identifier accepted by \<^verbatim>\<open>app.create_task\<close>, and the log line for that call
  raising.
\<close>

datatype event =
    LogNoClient
  | LogMissingId
  | LogNoMethod
  | GatewayCall string pyval string
  | LogAttempt pyval pyfloat int
  | LogInfeasible pyval int pyfloat
  | LogAdError py_exc
  | LogOuterError py_exc
  | SaveState
  | NotifyTask pyval pyfloat int resp_val
  | LogNotifyFailed

text \<open>
  The state dictionary (\<^verbatim>\<open>DEFAULT_STATE\<close>), with the keys that the worker reads, and the
  engine object (\<^verbatim>\<open>BotEngine\<close>).  \<open>price_min\<close> and \<open>price_max\<close> are
  \<^verbatim>\<open>float(state["price_range"]["min"])\<close> and \<^verbatim>\<open>float(state["price_range"]["max"])\<close>,
  \<open>min_buy\<close> is \<^verbatim>\<open>int(state.get("min_buy", 10000))\<close>.  \<^verbatim>\<open>seen_ads\<close> is a Python set,
  hence finite; \<open>ticks\<close> counts the interactions with the outside world so far and
  \<open>events\<close> records the effects.
\<close>

record bot_state =
  price_min :: pyfloat
  price_max :: pyfloat
  min_buy :: int
  max_buy :: int
  bot_running :: bool
  history :: "hist_item list"

record engine =
  state :: bot_state
  seen_ads :: "pyval fset"
  ticks :: nat
  events :: "event list"

text \<open>
  The outside world.  Every interaction is indexed by the number of interactions that
  happened before it, so that two calls may answer differently:
  \<^item> \<open>utcnow\<close>: the reading of \<^verbatim>\<open>datetime.utcnow()\<close>;
  \<^item> \<open>client\<close>: the SDK object (\<open>None\<close> when \<^verbatim>\<open>build_bybit_client\<close> failed), as a table from
    attribute names to methods; a method takes \<^verbatim>\<open>advertisementId\<close> and \<^verbatim>\<open>amount\<close> and
    returns a response, or raises (\<open>None\<close>);
  \<^item> \<open>online_ads\<close>: the result of \<^verbatim>\<open>get_online_ads()\<close>;
  \<^item> \<open>set_pop\<close>: the member that \<^verbatim>\<open>set.pop()\<close> removes;
  \<^item> \<open>create_task_fails\<close>: whether \<^verbatim>\<open>app.create_task\<close> raises;
  \<^item> \<open>float_str\<close>, \<open>float_big\<close>, \<open>str_float\<close>: the built-ins \<^verbatim>\<open>float(s)\<close> on a string
    (\<open>None\<close> is \<^verbatim>\<open>ValueError\<close>), \<^verbatim>\<open>float(i)\<close> on an integer beyond \<open>2^53\<close> (\<open>None\<close> is
    \<^verbatim>\<open>OverflowError\<close>), and \<^verbatim>\<open>str(x)\<close> on a float.
\<close>

type_synonym sdk_method = "nat \<Rightarrow> pyval \<Rightarrow> string \<Rightarrow> order_resp option"

record env =
  utcnow :: "nat \<Rightarrow> time"
  client :: "(string \<Rightarrow> sdk_method option) option"
  online_ads :: "nat \<Rightarrow> pydict list"
  set_pop :: "nat \<Rightarrow> pyval fset \<Rightarrow> pyval"
  create_task_fails :: "nat \<Rightarrow> bool"
  float_str :: "string \<Rightarrow> pyfloat option"
  float_big :: "int \<Rightarrow> pyfloat option"
  str_float :: "pyfloat \<Rightarrow> string"

subsection \<open>Built-in operations\<close>

definition dget :: "pydict \<Rightarrow> string \<Rightarrow> pyval" where
  "dget d k = (case map_of d k of None \<Rightarrow> PNone | Some v \<Rightarrow> v)"

definition dget_default :: "pydict \<Rightarrow> string \<Rightarrow> pyval \<Rightarrow> pyval" where
  "dget_default d k dflt = (case map_of d k of None \<Rightarrow> dflt | Some v \<Rightarrow> v)"

fun truthy :: "pyval \<Rightarrow> bool" where
  "truthy PNone = False"
| "truthy (PInt i) = (i \<noteq> 0)"
| "truthy (PFloat r) = (r \<noteq> 0)"
| "truthy (PStr s) = (s \<noteq> [])"

definition py_or :: "pyval \<Rightarrow> pyval \<Rightarrow> pyval" where
  "py_or a b = (if truthy a then a else b)"

definition py_float :: "env \<Rightarrow> pyval \<Rightarrow> py_exc + pyfloat" where
  "py_float env v =
     (case v of
        PNone \<Rightarrow> Inl TypeError
      | PInt i \<Rightarrow>
          (if \<bar>i\<bar> \<le> 2 ^ 53 then Inr (Fin (of_int i))
           else (case float_big env i of None \<Rightarrow> Inl OverflowError | Some f \<Rightarrow> Inr f))
      | PFloat r \<Rightarrow> Inr (Fin r)
      | PStr s \<Rightarrow> (case float_str env s of None \<Rightarrow> Inl ValueError | Some f \<Rightarrow> Inr f))"

text \<open>\<^verbatim>\<open>int(x)\<close> on a float truncates toward zero and raises on the special values.\<close>

definition trunc :: "real \<Rightarrow> int" where
  "trunc r = (if 0 \<le> r then \<lfloor>r\<rfloor> else \<lceil>r\<rceil>)"

fun py_int :: "pyfloat \<Rightarrow> py_exc + int" where
  "py_int (Fin r) = Inr (trunc r)"
| "py_int PosInf = Inl OverflowError"
| "py_int NegInf = Inl OverflowError"
| "py_int NaN = Inl ValueError"

text \<open>Comparisons: between floats, and between an integer and a float.\<close>

fun float_le :: "pyfloat \<Rightarrow> pyfloat \<Rightarrow> bool" where
  "float_le NaN _ = False"
| "float_le _ NaN = False"
| "float_le NegInf _ = True"
| "float_le _ PosInf = True"
| "float_le (Fin a) (Fin b) = (a \<le> b)"
| "float_le (Fin a) NegInf = False"
| "float_le PosInf (Fin b) = False"
| "float_le PosInf NegInf = False"

fun int_lt_float :: "int \<Rightarrow> pyfloat \<Rightarrow> bool" where
  "int_lt_float a (Fin r) = (of_int a < r)"
| "int_lt_float a PosInf = True"
| "int_lt_float a NegInf = False"
| "int_lt_float a NaN = False"

fun int_gt_float :: "int \<Rightarrow> pyfloat \<Rightarrow> bool" where
  "int_gt_float a (Fin r) = (of_int a > r)"
| "int_gt_float a PosInf = False"
| "int_gt_float a NegInf = True"
| "int_gt_float a NaN = False"

text \<open>\<^verbatim>\<open>str(n)\<close> on an integer: its decimal digits.\<close>

fun nat_digits :: "nat \<Rightarrow> string" where
  "nat_digits n =
     (if n < 10 then [''0123456789'' ! n]
      else nat_digits (n div 10) @ [''0123456789'' ! (n mod 10)])"

definition str_int :: "int \<Rightarrow> string" where
  "str_int i = (if i < 0 then CHR ''-'' # nat_digits (nat (- i)) else nat_digits (nat i))"

definition py_str :: "env \<Rightarrow> pyval \<Rightarrow> string" where
  "py_str env v =
     (case v of
        PNone \<Rightarrow> ''None''
      | PInt i \<Rightarrow> str_int i
      | PFloat r \<Rightarrow> str_float env (Fin r)
      | PStr s \<Rightarrow> s)"

text \<open>
  Membership in a Python set goes by \<^verbatim>\<open>==\<close> and \<^verbatim>\<open>hash\<close>, for which \<^verbatim>\<open>5\<close> and
  \<^verbatim>\<open>5.0\<close> are the same element: a set holds the canonical form of each member.
\<close>

definition set_key :: "pyval \<Rightarrow> pyval" where
  "set_key v =
     (case v of
        PFloat r \<Rightarrow> (if r = of_int \<lfloor>r\<rfloor> then PInt \<lfloor>r\<rfloor> else PFloat r)
      | _ \<Rightarrow> v)"

section \<open>History pruning\<close>

text \<open>\<^verbatim>\<open>timedelta(days=10)\<close>, in microseconds.\<close>

definition retention :: int where
  "retention = 10 * 86400 * 1000000"

text \<open>
  The loop of \<^verbatim>\<open>prune_history\<close>.  An item whose timestamp does not parse takes a fresh
  clock reading; an offset-aware timestamp makes the comparison \<^verbatim>\<open>ts >= cutoff\<close> with the
  naive cutoff raise \<^verbatim>\<open>TypeError\<close>, outside the \<^verbatim>\<open>try\<close>.  The result is the new list
  (\<open>None\<close> when the loop raised) and the number of interactions after the loop.
\<close>

fun prune_items :: "env \<Rightarrow> time \<Rightarrow> hist_item list \<Rightarrow> nat \<Rightarrow> hist_item list option \<times> nat" where
  "prune_items env cutoff [] k = (Some [], k)"
| "prune_items env cutoff (item # rest) k =
     (case h_timestamp item of
        Naive ts \<Rightarrow>
          (case prune_items env cutoff rest k of
             (r, k') \<Rightarrow> (if ts \<ge> cutoff then map_option (Cons item) r else r, k'))
      | Malformed \<Rightarrow>
          (let ts = utcnow env k in
           case prune_items env cutoff rest (Suc k) of
             (r, k') \<Rightarrow> (if ts \<ge> cutoff then map_option (Cons item) r else r, k'))
      | Aware ts \<Rightarrow> (None, k))"

text \<open>
  \<^verbatim>\<open>prune_history(state)\<close>: the history is replaced only when the loop has completed.
\<close>

definition prune_history :: "env \<Rightarrow> engine \<Rightarrow> py_exc option \<times> engine" where
  "prune_history env eng =
     (let cutoff = utcnow env (ticks eng) - retention in
      case prune_items env cutoff (history (state eng)) (Suc (ticks eng)) of
        (None, k) \<Rightarrow> (Some TypeError, eng\<lparr>ticks := k\<rparr>)
      | (Some h, k) \<Rightarrow> (None, eng\<lparr>state := (state eng)\<lparr>history := h\<rparr>, ticks := k\<rparr>))"

section \<open>Order placement\<close>

definition log_event :: "event \<Rightarrow> engine \<Rightarrow> engine" where
  "log_event e eng = eng\<lparr>events := events eng @ [e]\<rparr>"

text \<open>
  The loop of \<^verbatim>\<open>create_buy_order\<close> over the candidate method names: an absent attribute
  is skipped, a method that raises is followed by the next name, the first method that
  returns ends the loop with its response.
\<close>

fun try_methods ::
  "(string \<Rightarrow> sdk_method option) \<Rightarrow> pyval \<Rightarrow> string \<Rightarrow> string list \<Rightarrow> engine \<Rightarrow> order_resp option \<times> engine" where
  "try_methods cl aid amt [] eng = (None, eng)"
| "try_methods cl aid amt (name # names) eng =
     (case cl name of
        None \<Rightarrow> try_methods cl aid amt names eng
      | Some m \<Rightarrow>
          (let eng' = log_event (GatewayCall name aid amt) (eng\<lparr>ticks := Suc (ticks eng)\<rparr>) in
           case m (ticks eng) aid amt of
             None \<Rightarrow> try_methods cl aid amt names eng'
           | Some resp \<Rightarrow> (Some resp, eng')))"

definition order_methods :: "string list" where
  "order_methods =
     [''create_order'', ''create_buy_order'', ''create_order_v5'', ''create_order_v1'',
      ''post_order'', ''place_order'']"

definition create_buy_order :: "env \<Rightarrow> engine \<Rightarrow> pydict \<Rightarrow> int \<Rightarrow> order_resp \<times> engine" where
  "create_buy_order env eng ad amount_fiat =
     (case client env of
        None \<Rightarrow> (RespNone, log_event LogNoClient eng)
      | Some cl \<Rightarrow>
          (let ad_id = py_or (dget ad ''adId'') (py_or (dget ad ''advertisementId'')
                         (py_or (dget ad ''id'') (dget ad ''ad_id''))) in
           if \<not> truthy ad_id then (RespNone, log_event LogMissingId eng)
           else
             (case try_methods cl ad_id (str_int amount_fiat) order_methods eng of
                (Some resp, eng') \<Rightarrow> (resp, eng')
              | (None, eng') \<Rightarrow> (RespNone, log_event LogNoMethod eng'))))"

section \<open>The matching loop\<close>

text \<open>The expressions of the loop body of \<^verbatim>\<open>worker_loop\<close>, in the order of the source.\<close>

definition ad_price_str :: "pydict \<Rightarrow> pyval" where
  "ad_price_str ad = py_or (dget ad ''price'') (py_or (dget ad ''unitPrice'') (dget ad ''rate''))"

definition derive_ad_id :: "env \<Rightarrow> pydict \<Rightarrow> pyfloat \<Rightarrow> pyval" where
  "derive_ad_id env ad price =
     py_or (dget ad ''adId'') (py_or (dget ad ''advertisementId'') (py_or (dget ad ''id'')
       (PStr (str_float env price @ ''_'' @ py_str env (dget_default ad ''sellerId'' (PStr []))))))"

definition in_band :: "bot_state \<Rightarrow> pyfloat \<Rightarrow> bool" where
  "in_band st price \<longleftrightarrow> float_le (price_min st) price \<and> float_le price (price_max st)"

definition ad_min_limit :: "env \<Rightarrow> pydict \<Rightarrow> py_exc + pyfloat" where
  "ad_min_limit env ad = py_float env (py_or (dget ad ''minLimit'') (py_or (dget ad ''min'') (PInt 0)))"

definition ad_max_limit :: "env \<Rightarrow> pydict \<Rightarrow> py_exc + pyfloat" where
  "ad_max_limit env ad =
     py_float env (py_or (dget ad ''maxLimit'') (py_or (dget ad ''max'') (PFloat 1000000000000000000)))"

text \<open>
  \<^verbatim>\<open>if amount_fiat < ad_min: amount_fiat = int(ad_min)\<close>, starting from
  \<^verbatim>\<open>int(state["min_buy"])\<close>.
\<close>

definition clamp_amount :: "bot_state \<Rightarrow> pyfloat \<Rightarrow> py_exc + int" where
  "clamp_amount st ad_min =
     (let amount_fiat = min_buy st in
      if int_lt_float amount_fiat ad_min then py_int ad_min else Inr amount_fiat)"

text \<open>
  \<^verbatim>\<open>resp.get("orderId") or (resp.get("data") or {}).get("orderId")\<close>, evaluated only for a
  dictionary; \<^verbatim>\<open>.get\<close> on a non-empty string, a number or a list raises
  \<^verbatim>\<open>AttributeError\<close>.
\<close>

definition rget :: "(string \<times> resp_val) list \<Rightarrow> string \<Rightarrow> resp_val" where
  "rget d k = (case map_of d k of None \<Rightarrow> RV PNone | Some v \<Rightarrow> v)"

fun rtruthy :: "resp_val \<Rightarrow> bool" where
  "rtruthy (RV v) = truthy v"
| "rtruthy (RDictV d) = (d \<noteq> [])"
| "rtruthy (RListV l) = (l \<noteq> [])"

definition extract_order_id :: "order_resp \<Rightarrow> py_exc + resp_val" where
  "extract_order_id resp =
     (case resp of
        RespDict d \<Rightarrow>
          (let top = rget d ''orderId'' in
           if rtruthy top then Inr top
           else
             (let data = rget d ''data'' in
              if rtruthy data then
                (case data of RDictV dd \<Rightarrow> Inr (RV (dget dd ''orderId'')) | _ \<Rightarrow> Inl AttributeError)
              else Inr (RV PNone)))
      | _ \<Rightarrow> Inr (RV PNone))"

text \<open>
  \<^verbatim>\<open>self.seen_ads.add(ad_id)\<close>, and the eviction of one member once the set holds more
  than 1000.  \<open>notify\<close> is the call \<^verbatim>\<open>self.app.create_task(self.notify_admin(...))\<close>
  inside its \<^verbatim>\<open>try\<close>: the event \<open>NotifyTask\<close> records that the task was accepted, so that
  the notification is dispatched; \<open>LogNotifyFailed\<close> is the log line of the handler when the
  call raised, in which case nothing is dispatched.
\<close>

definition mark_seen :: "env \<Rightarrow> pyval \<Rightarrow> engine \<Rightarrow> engine" where
  "mark_seen env ad_id eng =
     (let s = finsert (set_key ad_id) (seen_ads eng) in
      if fcard s > 1000
      then eng\<lparr>seen_ads := s |-| {|set_pop env (ticks eng) s|}, ticks := Suc (ticks eng)\<rparr>
      else eng\<lparr>seen_ads := s\<rparr>)"

definition notify :: "env \<Rightarrow> pyval \<Rightarrow> pyfloat \<Rightarrow> int \<Rightarrow> resp_val \<Rightarrow> engine \<Rightarrow> engine" where
  "notify env ad_id price amount_fiat order_id eng =
     (let eng' = eng\<lparr>ticks := Suc (ticks eng)\<rparr> in
      if create_task_fails env (ticks eng) then log_event LogNotifyFailed eng'
      else log_event (NotifyTask ad_id price amount_fiat order_id) eng')"

text \<open>
  Lines 236 to 278: the order attempt, the history record, the notification and the seen
  set.  An exception leaves the loop body at the point where it is raised, with the
  effects made so far.
\<close>

definition insert_record :: "env \<Rightarrow> pydict \<Rightarrow> pyval \<Rightarrow> pyfloat \<Rightarrow> int \<Rightarrow> order_resp \<Rightarrow> engine \<Rightarrow> engine" where
  "insert_record env ad ad_id price amount_fiat resp eng =
     (let ts = utcnow env (ticks eng);
          record = \<lparr>h_order_response = resp, h_ad_id = ad_id, h_ad_price = price, h_ad_raw = ad,
                    h_amount = amount_fiat, h_timestamp = Naive ts\<rparr>
      in eng\<lparr>state := (state eng)\<lparr>history := record # history (state eng)\<rparr>,
              ticks := Suc (ticks eng)\<rparr>)"

definition place_and_record :: "env \<Rightarrow> engine \<Rightarrow> pydict \<Rightarrow> pyval \<Rightarrow> pyfloat \<Rightarrow> int \<Rightarrow> engine" where
  "place_and_record env eng ad ad_id price amount_fiat =
     (case create_buy_order env (log_event (LogAttempt ad_id price amount_fiat) eng) ad amount_fiat of
        (resp, eng1) \<Rightarrow>
          (case prune_history env (insert_record env ad ad_id price amount_fiat resp eng1) of
             (Some e, eng2) \<Rightarrow> log_event (LogAdError e) eng2
           | (None, eng2) \<Rightarrow>
               (let eng3 = log_event SaveState eng2 in
                case extract_order_id resp of
                  Inl e \<Rightarrow> log_event (LogAdError e) eng3
                | Inr order_id \<Rightarrow>
                    mark_seen env ad_id (notify env ad_id price amount_fiat order_id eng3))))"

text \<open>The body of \<^verbatim>\<open>for ad in ads\<close>, with its \<^verbatim>\<open>try\<close> and \<^verbatim>\<open>except Exception\<close>.\<close>

definition process_ad :: "env \<Rightarrow> engine \<Rightarrow> pydict \<Rightarrow> engine" where
  "process_ad env eng ad =
     (let price_str = ad_price_str ad in
      if price_str = PNone then eng
      else
        (case py_float env price_str of
           Inl e \<Rightarrow> log_event (LogAdError e) eng
         | Inr price \<Rightarrow>
             (let ad_id = derive_ad_id env ad price in
              if set_key ad_id |\<in>| seen_ads eng then eng
              else if in_band (state eng) price then
                (case ad_min_limit env ad of
                   Inl e \<Rightarrow> log_event (LogAdError e) eng
                 | Inr ad_min \<Rightarrow>
                     (case ad_max_limit env ad of
                        Inl e \<Rightarrow> log_event (LogAdError e) eng
                      | Inr ad_max \<Rightarrow>
                          (case clamp_amount (state eng) ad_min of
                             Inl e \<Rightarrow> log_event (LogAdError e) eng
                           | Inr amount_fiat \<Rightarrow>
                               if int_gt_float amount_fiat ad_max
                               then log_event (LogInfeasible ad_id amount_fiat ad_max) eng
                               else place_and_record env eng ad ad_id price amount_fiat)))
              else eng)))"

text \<open>
  One iteration of \<^verbatim>\<open>while not self._stop_event.is_set()\<close>: idle when the run flag is
  off, prune, fetch, and process the listings in the order of the feed.  An exception of
  the pruning reaches the outer handler and ends the iteration.
\<close>

definition process_ads :: "env \<Rightarrow> engine \<Rightarrow> pydict list \<Rightarrow> engine" where
  "process_ads env eng ads = foldl (process_ad env) eng ads"

definition worker_cycle :: "env \<Rightarrow> engine \<Rightarrow> engine" where
  "worker_cycle env eng =
     (if \<not> bot_running (state eng) then eng
      else
        (case prune_history env eng of
           (Some e, eng1) \<Rightarrow> log_event (LogOuterError e) eng1
         | (None, eng1) \<Rightarrow>
             (let ads = online_ads env (ticks eng1);
                  eng2 = eng1\<lparr>ticks := Suc (ticks eng1)\<rparr>
              in if ads = [] then eng2 else process_ads env eng2 ads)))"

section \<open>Notions used in the statements\<close>

text \<open>
  Two states with the same configuration; a history without offset-aware timestamps; the
  instant at which pruning at clock reading \<open>t\<close> takes an item to be stamped, and the test
  \<^verbatim>\<open>ts >= cutoff\<close> on it; a clock that never advances by more than the retention window
  between two consecutive readings.
\<close>

definition same_config :: "bot_state \<Rightarrow> bot_state \<Rightarrow> bool" where
  "same_config st st' \<longleftrightarrow>
     price_min st' = price_min st \<and> price_max st' = price_max st \<and> min_buy st' = min_buy st \<and>
     max_buy st' = max_buy st \<and> bot_running st' = bot_running st"

definition no_aware :: "hist_item list \<Rightarrow> bool" where
  "no_aware h = list_all (\<lambda>item. case h_timestamp item of Aware _ \<Rightarrow> False | _ \<Rightarrow> True) h"

definition stamp :: "time \<Rightarrow> hist_item \<Rightarrow> time" where
  "stamp t item = (case h_timestamp item of Naive ts \<Rightarrow> ts | Aware ts \<Rightarrow> ts | Malformed \<Rightarrow> t)"

definition kept :: "time \<Rightarrow> hist_item \<Rightarrow> bool" where
  "kept t item \<longleftrightarrow> t - retention \<le> stamp t item"

definition steady_clock :: "env \<Rightarrow> bool" where
  "steady_clock env \<longleftrightarrow> (\<forall>k. utcnow env (Suc k) \<le> utcnow env k + retention)"

text \<open>
  The window of the specification, ``an instant within 10 days before \<open>t\<close>''.
\<close>

definition within_window_before :: "time \<Rightarrow> time \<Rightarrow> bool" where
  "within_window_before t ts \<longleftrightarrow> t - retention \<le> ts \<and> ts \<le> t"






text \<open>The same engine under another configured \<^verbatim>\<open>max_buy\<close>.\<close>

definition set_max_buy :: "int \<Rightarrow> engine \<Rightarrow> engine" where
  "set_max_buy m eng = eng\<lparr>state := (state eng)\<lparr>max_buy := m\<rparr>\<rparr>"

text \<open>
  The engine states in which the loop body runs: the state after the pruning and the
  fetch at the top of an iteration with the run flag on, and every state that follows it
  by processing a listing.
\<close>

inductive loop_state :: "env \<Rightarrow> engine \<Rightarrow> bool" for env :: env where
  enter: "bot_running (state eng) \<Longrightarrow> prune_history env eng = (None, eng1) \<Longrightarrow>
          loop_state env (eng1\<lparr>ticks := Suc (ticks eng1)\<rparr>)"
| step: "loop_state env eng \<Longrightarrow> loop_state env (process_ad env eng ad)"

section \<open>Concrete inputs\<close>

text \<open>
  \<^verbatim>\<open>DEFAULT_STATE\<close> of the source, a freshly constructed engine over it, an environment
  without SDK client, and the listings of the scenarios.
\<close>

definition DEFAULT_STATE :: bot_state where
  "DEFAULT_STATE =
     \<lparr>price_min = Fin 1400, price_max = Fin 1455, min_buy = 10000, max_buy = 1000000,
      bot_running = False, history = []\<rparr>"

definition fresh_engine :: engine where
  "fresh_engine = \<lparr>state = DEFAULT_STATE, seen_ads = {||}, ticks = 0, events = []\<rparr>"

definition offline_env :: env where
  "offline_env =
     \<lparr>utcnow = (\<lambda>k. 1700000000000000 + int k), client = None, online_ads = (\<lambda>k. []),
      set_pop = (\<lambda>k s. PNone), create_task_fails = (\<lambda>k. False),
      float_str = (\<lambda>s. None), float_big = (\<lambda>i. None), str_float = (\<lambda>f. [])\<rparr>"

definition listing_A1 :: pydict where
  "listing_A1 =
     [(''id'', PStr ''A1''), (''price'', PInt 1420), (''minLimit'', PInt 5000),
      (''maxLimit'', PInt 2000000)]"

definition listing_1500 :: pydict where
  "listing_1500 =
     [(''id'', PStr ''B2''), (''price'', PInt 1500), (''minLimit'', PInt 5000),
      (''maxLimit'', PInt 2000000)]"

definition live_env :: env where
  "live_env =
     offline_env\<lparr>client := Some (\<lambda>name. if name = ''create_order''
        then Some (\<lambda>k aid amt. Some (RespDict [(''orderId'', RV (PStr ''O1''))])) else None)\<rparr>"


definition listing_12000 :: pydict where
  "listing_12000 =
     [(''id'', PStr ''D4''), (''price'', PInt 1420), (''minLimit'', PInt 12000),
      (''maxLimit'', PInt 50000)]"

definition listing_fraction :: pydict where
  "listing_fraction =
     [(''id'', PStr ''E5''), (''price'', PInt 1420), (''minLimit'', PFloat 12000.5),
      (''maxLimit'', PInt 50000)]"


definition listing_large :: pydict where
  "listing_large =
     [(''id'', PStr ''G7''), (''price'', PInt 1420), (''minLimit'', PFloat 1000000.5),
      (''maxLimit'', PInt 2000000)]"

text \<open>
  A clock that always reads \<open>t\<close>; a stored history item with a given timestamp and an
  engine holding a given history; a client whose only order method raises, and one whose
  order method returns a dictionary with a list under \<^verbatim>\<open>"data"\<close>; the engine with the run
  flag on, and the state in which its first iteration enters the loop over the listings.
\<close>

definition frozen_env :: "time \<Rightarrow> env" where
  "frozen_env t = offline_env\<lparr>utcnow := (\<lambda>k. t)\<rparr>"

definition stored :: "ts_field \<Rightarrow> hist_item" where
  "stored ts =
     \<lparr>h_order_response = RespNone, h_ad_id = PStr ''A1'', h_ad_price = Fin 1420,
      h_ad_raw = listing_A1, h_amount = 10000, h_timestamp = ts\<rparr>"

definition engine_with :: "hist_item list \<Rightarrow> engine" where
  "engine_with h = fresh_engine\<lparr>state := DEFAULT_STATE\<lparr>history := h\<rparr>\<rparr>"


definition list_data_env :: env where
  "list_data_env =
     offline_env\<lparr>client := Some (\<lambda>name. if name = ''create_order''
        then Some (\<lambda>k aid amt. Some (RespDict [(''data'', RListV [PStr ''ok''])])) else None)\<rparr>"

definition running_engine :: engine where
  "running_engine = fresh_engine\<lparr>state := DEFAULT_STATE\<lparr>bot_running := True\<rparr>\<rparr>"

definition loop_engine :: engine where
  "loop_engine = running_engine\<lparr>ticks := 2\<rparr>"










section \<open>Frame properties\<close>

declare nat_digits.simps [simp del]

lemmas eval_defs =
  process_ad_def ad_price_str_def dget_def dget_default_def py_or_def py_float_def derive_ad_id_def
  set_key_def in_band_def ad_min_limit_def ad_max_limit_def clamp_amount_def trunc_def
  place_and_record_def create_buy_order_def log_event_def insert_record_def prune_history_def
  retention_def extract_order_id_def rget_def notify_def mark_seen_def Let_def

lemma nat_digits_small: "n < 10 \<Longrightarrow> nat_digits n = [''0123456789'' ! n]"
  by (simp add: nat_digits.simps)

lemma nat_digits_large:
  "\<not> n < 10 \<Longrightarrow> nat_digits n = nat_digits (n div 10) @ [''0123456789'' ! (n mod 10)]"
  by (subst nat_digits.simps) simp

lemma fcard_single: "fcard {|x|} = 1"
  by (simp add: fcard_finsert_if)

lemma log_event_simps [simp]:
  "state (log_event e eng) = state eng"
  "seen_ads (log_event e eng) = seen_ads eng"
  "ticks (log_event e eng) = ticks eng"
  "events (log_event e eng) = events eng @ [e]"
  by (simp_all add: log_event_def)

lemma same_config_refl [simp]: "same_config st st"
  by (simp add: same_config_def)

lemma same_config_history [simp]: "same_config st (st\<lparr>history := h\<rparr>)"
  by (simp add: same_config_def)

lemma same_config_trans: "same_config a b \<Longrightarrow> same_config b c \<Longrightarrow> same_config a c"
  by (simp add: same_config_def)

lemma try_methods_state [simp]:
  "state (snd (try_methods cl aid amt names eng)) = state eng"
  "seen_ads (snd (try_methods cl aid amt names eng)) = seen_ads eng"
  by (induction names arbitrary: eng) (simp_all add: Let_def split: option.splits)

lemma create_buy_order_state [simp]:
  "state (snd (create_buy_order env eng ad a)) = state eng"
  "seen_ads (snd (create_buy_order env eng ad a)) = seen_ads eng"
  by (simp_all add: create_buy_order_def Let_def split: option.splits prod.splits)
   (metis snd_conv try_methods_state)+

lemma prune_history_frame [simp]:
  "seen_ads (snd (prune_history env eng)) = seen_ads eng"
  "events (snd (prune_history env eng)) = events eng"
  "same_config (state eng) (state (snd (prune_history env eng)))"
  by (simp_all add: prune_history_def Let_def split: option.splits prod.splits)

lemma insert_record_frame [simp]:
  "seen_ads (insert_record env ad i p a r eng) = seen_ads eng"
  "events (insert_record env ad i p a r eng) = events eng"
  "same_config (state eng) (state (insert_record env ad i p a r eng))"
  by (simp_all add: insert_record_def Let_def)

lemma notify_frame [simp]:
  "state (notify env i p a oid eng) = state eng"
  "seen_ads (notify env i p a oid eng) = seen_ads eng"
  by (simp_all add: notify_def Let_def)

lemma mark_seen_state [simp]:
  "state (mark_seen env i eng) = state eng"
  "events (mark_seen env i eng) = events eng"
  by (simp_all add: mark_seen_def Let_def)

lemma place_and_record_config:
  "same_config (state eng) (state (place_and_record env eng ad i p a))"
proof -
  obtain resp eng1 where c: "create_buy_order env (log_event (LogAttempt i p a) eng) ad a = (resp, eng1)"
    by (cases "create_buy_order env (log_event (LogAttempt i p a) eng) ad a")
  have s1: "state eng1 = state eng"
    using create_buy_order_state(1) [of env "log_event (LogAttempt i p a) eng" ad a] c by simp
  obtain r eng2 where p: "prune_history env (insert_record env ad i p a resp eng1) = (r, eng2)"
    by (cases "prune_history env (insert_record env ad i p a resp eng1)")
  have s2: "same_config (state eng) (state eng2)"
    using prune_history_frame(3) [of "insert_record env ad i p a resp eng1" env] p
      insert_record_frame(3) [of eng1 env ad i p a resp] s1
    by (metis same_config_trans snd_conv)
  show ?thesis
    using s2 by (simp add: place_and_record_def c p Let_def split: option.splits sum.splits)
qed

lemma process_ad_config:
  "same_config (state eng) (state (process_ad env eng ad))"
  by (simp add: process_ad_def Let_def place_and_record_config split: sum.splits)

lemma process_ads_config:
  "same_config (state eng) (state (process_ads env eng ads))"
  unfolding process_ads_def
proof (induction ads arbitrary: eng)
  case Nil
  show ?case by simp
next
  case (Cons ad ads)
  show ?case
    using Cons.IH [of "process_ad env eng ad"] process_ad_config [of eng env ad]
    by (simp add: same_config_trans)
qed

lemma same_config_band: "same_config st st' \<Longrightarrow> in_band st' p = in_band st p"
  by (simp add: same_config_def in_band_def)


lemma py_float_not_None: "py_float env v = Inr p \<Longrightarrow> v \<noteq> PNone"
  by (auto simp: py_float_def)

lemma process_ad_out_of_band:
  "py_float env (ad_price_str ad) = Inr price \<Longrightarrow> \<not> in_band (state eng) price \<Longrightarrow>
   process_ad env eng ad = eng"
  by (frule py_float_not_None) (simp add: process_ad_def Let_def)

lemma process_ad_seen:
  "py_float env (ad_price_str ad) = Inr price \<Longrightarrow>
   set_key (derive_ad_id env ad price) |\<in>| seen_ads eng \<Longrightarrow> process_ad env eng ad = eng"
  by (frule py_float_not_None) (simp add: process_ad_def Let_def)



lemma process_ads_append:
  "process_ads env eng (xs @ ys) = process_ads env (process_ads env eng xs) ys"
  by (simp add: process_ads_def)

lemma process_ads_Cons:
  "process_ads env eng (x # xs) = process_ads env (process_ad env eng x) xs"
  by (simp add: process_ads_def)

lemma try_methods_max_buy:
  "try_methods cl aid amt names (set_max_buy m eng) =
   (fst (try_methods cl aid amt names eng), set_max_buy m (snd (try_methods cl aid amt names eng)))"
proof (induction names arbitrary: eng)
  case Nil
  show ?case by simp
next
  case (Cons name names)
  have tick: "\<And>e ev. log_event ev (set_max_buy m eng\<lparr>ticks := Suc (ticks eng)\<rparr>) =
      set_max_buy m (log_event ev (eng\<lparr>ticks := Suc (ticks eng)\<rparr>))"
    by (simp add: set_max_buy_def log_event_def)
  have t: "ticks (set_max_buy m eng) = ticks eng"
    by (simp add: set_max_buy_def)
  show ?case
    by (simp add: Let_def t tick Cons.IH split: option.splits)
qed

lemma log_event_max_buy: "log_event e (set_max_buy m eng) = set_max_buy m (log_event e eng)"
  by (simp add: set_max_buy_def log_event_def)

lemma create_buy_order_max_buy:
  "create_buy_order env (set_max_buy m eng) ad a =
   (fst (create_buy_order env eng ad a), set_max_buy m (snd (create_buy_order env eng ad a)))"
  by (simp add: create_buy_order_def Let_def try_methods_max_buy log_event_max_buy
      split: option.splits prod.splits)

lemma insert_record_max_buy:
  "insert_record env ad i p a r (set_max_buy m eng) = set_max_buy m (insert_record env ad i p a r eng)"
  by (simp add: insert_record_def set_max_buy_def Let_def)

lemma prune_history_max_buy:
  "prune_history env (set_max_buy m eng) =
   (fst (prune_history env eng), set_max_buy m (snd (prune_history env eng)))"
  by (simp add: prune_history_def set_max_buy_def Let_def split: option.splits prod.splits)

lemma notify_max_buy:
  "notify env i p a oid (set_max_buy m eng) = set_max_buy m (notify env i p a oid eng)"
  by (simp add: notify_def Let_def set_max_buy_def log_event_def)

lemma mark_seen_max_buy:
  "mark_seen env i (set_max_buy m eng) = set_max_buy m (mark_seen env i eng)"
  by (simp add: mark_seen_def Let_def set_max_buy_def)

lemma place_and_record_max_buy:
  "place_and_record env (set_max_buy m eng) ad i p a = set_max_buy m (place_and_record env eng ad i p a)"
  by (simp add: place_and_record_def Let_def log_event_max_buy create_buy_order_max_buy
      insert_record_max_buy prune_history_max_buy notify_max_buy mark_seen_max_buy
      split: option.splits prod.splits sum.splits)

lemma set_max_buy_reads [simp]:
  "seen_ads (set_max_buy m eng) = seen_ads eng"
  "in_band (state (set_max_buy m eng)) p = in_band (state eng) p"
  "clamp_amount (state (set_max_buy m eng)) mn = clamp_amount (state eng) mn"
  by (simp_all add: set_max_buy_def in_band_def clamp_amount_def)

lemma process_ad_max_buy:
  "process_ad env (set_max_buy m eng) ad = set_max_buy m (process_ad env eng ad)"
  by (simp add: process_ad_def Let_def log_event_max_buy place_and_record_max_buy
      split: sum.splits)

lemma process_ads_max_buy:
  "process_ads env (set_max_buy m eng) ads = set_max_buy m (process_ads env eng ads)"
  by (induction ads arbitrary: eng) (simp_all add: process_ads_def process_ad_max_buy)


lemma no_aware_simps [simp]:
  "no_aware []"
  "no_aware (item # h) \<longleftrightarrow> (\<forall>ts. h_timestamp item \<noteq> Aware ts) \<and> no_aware h"
  by (auto simp: no_aware_def split: ts_field.splits)

lemma prune_items_aware:
  "\<not> no_aware h \<Longrightarrow> fst (prune_items env c h k) = None"
  by (induction h arbitrary: k) (auto simp: Let_def case_prod_beta split: ts_field.splits)

lemma prune_items_no_aware:
  "no_aware h \<Longrightarrow> \<exists>h'. fst (prune_items env c h k) = Some h' \<and> no_aware h' \<and> set h' \<subseteq> set h"
proof (induction h arbitrary: k)
  case Nil
  show ?case by simp
next
  case (Cons item h)
  from Cons.prems have na: "no_aware h" by simp
  show ?case
  proof (cases "h_timestamp item")
    case (Naive ts)
    obtain h' where "fst (prune_items env c h k) = Some h'" "no_aware h'" "set h' \<subseteq> set h"
      using Cons.IH [OF na, of k] by blast
    then show ?thesis
      using Naive by (auto simp: case_prod_beta)
  next
    case (Aware ts)
    with Cons.prems show ?thesis by simp
  next
    case Malformed
    obtain h' where "fst (prune_items env c h (Suc k)) = Some h'" "no_aware h'" "set h' \<subseteq> set h"
      using Cons.IH [OF na, of "Suc k"] by blast
    then show ?thesis
      using Malformed by (auto simp: Let_def case_prod_beta)
  qed
qed

lemma prune_items_const:
  assumes "\<forall>k. utcnow env k = t" and "no_aware h"
  shows "fst (prune_items env c h k) = Some (filter (\<lambda>item. c \<le> stamp t item) h)"
  using assms(2)
proof (induction h arbitrary: k)
  case Nil
  show ?case by simp
next
  case (Cons item h)
  from Cons.prems have na: "no_aware h" by simp
  show ?case
  proof (cases "h_timestamp item")
    case (Naive ts)
    then show ?thesis
      using Cons.IH [OF na, of k] by (simp add: stamp_def case_prod_beta)
  next
    case (Aware ts)
    with Cons.prems show ?thesis by simp
  next
    case Malformed
    then show ?thesis
      using Cons.IH [OF na, of "Suc k"] assms(1) by (simp add: stamp_def Let_def case_prod_beta)
  qed
qed

lemma prune_history_aware:
  "\<not> no_aware (history (state eng)) \<Longrightarrow>
   fst (prune_history env eng) = Some TypeError \<and>
   state (snd (prune_history env eng)) = state eng"
  using prune_items_aware [of "history (state eng)" env "utcnow env (ticks eng) - retention" "Suc (ticks eng)"]
  by (simp add: prune_history_def Let_def case_prod_beta split: option.splits)

lemma prune_history_no_aware:
  assumes "no_aware (history (state eng))"
  shows "fst (prune_history env eng) = None \<and> no_aware (history (state (snd (prune_history env eng))))
         \<and> set (history (state (snd (prune_history env eng)))) \<subseteq> set (history (state eng))"
  using prune_items_no_aware [OF assms, of env "utcnow env (ticks eng) - retention" "Suc (ticks eng)"]
  by (auto simp: prune_history_def Let_def case_prod_beta split: option.splits)

lemma prune_history_const:
  assumes "\<forall>k. utcnow env k = t" and "no_aware (history (state eng))"
  shows "fst (prune_history env eng) = None \<and>
         history (state (snd (prune_history env eng))) = filter (kept t) (history (state eng))"
proof -
  have "(\<lambda>item. t - retention \<le> stamp t item) = kept t"
    by (simp add: kept_def fun_eq_iff)
  then show ?thesis
    using prune_items_const [OF assms, of "t - retention" "Suc (ticks eng)"] assms(1)
    by (simp add: prune_history_def Let_def case_prod_beta split: option.splits)
qed





section \<open>The claims\<close>

subsection \<open>Price band and seen set\<close>

text \<open>
  Claim C1.  A listing whose price parses to a value outside the inclusive band
  \<open>[price_min, price_max]\<close> is passed over: processing it leaves the engine as it is (no
  order attempt, no history record, no new member of the seen set, no effect at all), and
  a run of the loop over a feed that contains it ends in the same engine as the run over
  the feed without it.
\<close>

theorem out_of_band_listing_ignored:
  assumes "py_float env (ad_price_str ad) = Inr price" and "\<not> in_band (state eng) price"
  shows "process_ad env eng ad = eng \<and>
         process_ads env eng (pre @ ad # post) = process_ads env eng (pre @ post)"
proof
  show "process_ad env eng ad = eng"
    using assms by (rule process_ad_out_of_band)
next
  let ?mid = "process_ads env eng pre"
  have "in_band (state ?mid) price = in_band (state eng) price"
    using process_ads_config [of eng env pre] by (rule same_config_band)
  with assms have "process_ad env ?mid ad = ?mid"
    by (simp add: process_ad_out_of_band)
  then show "process_ads env eng (pre @ ad # post) = process_ads env eng (pre @ post)"
    by (simp add: process_ads_append process_ads_Cons)
qed

text \<open>
  The scenario of the specification: a listing priced 1500 against the band
  \<open>[1400, 1455]\<close>.
\<close>

theorem out_of_band_listing_ignored_witness:
  "py_float offline_env (ad_price_str listing_1500) = Inr (Fin 1500) \<and>
   \<not> in_band (state fresh_engine) (Fin 1500) \<and>
   process_ad offline_env fresh_engine listing_1500 = fresh_engine \<and>
   process_ads offline_env fresh_engine ([listing_A1] @ listing_1500 # [listing_A1]) =
   process_ads offline_env fresh_engine ([listing_A1] @ [listing_A1])"
proof -
  have p: "py_float offline_env (ad_price_str listing_1500) = Inr (Fin 1500)"
    by (simp add: ad_price_str_def dget_def py_or_def py_float_def listing_1500_def)
  have b: "\<not> in_band (state fresh_engine) (Fin 1500)"
    by (simp add: in_band_def fresh_engine_def DEFAULT_STATE_def)
  show ?thesis
    using out_of_band_listing_ignored [OF p b, of "[listing_A1]" "[listing_A1]"] p b by simp
qed

text \<open>
  Claim C2.  A listing whose derived identifier is a member of the seen set when it is
  processed is passed over: the engine is unchanged, so there is no order attempt and no
  history record; and since the seen set is unchanged too, the same holds however often
  the listing is presented again.
\<close>

theorem seen_listing_skipped:
  assumes "py_float env (ad_price_str ad) = Inr price"
    and "set_key (derive_ad_id env ad price) |\<in>| seen_ads eng"
  shows "process_ad env eng ad = eng \<and> ((\<lambda>e. process_ad env e ad) ^^ n) eng = eng"
proof -
  have one: "process_ad env eng ad = eng"
    using assms by (rule process_ad_seen)
  have "((\<lambda>e. process_ad env e ad) ^^ n) eng = eng"
    by (induction n) (simp_all add: one)
  with one show ?thesis by simp
qed

text \<open>
  The scenario of the specification: listing \<open>A1\<close> is matched in one cycle and presented
  again in the following ones.
\<close>

theorem seen_listing_skipped_witness:
  "py_float offline_env (ad_price_str listing_A1) = Inr (Fin 1420) \<and>
   set_key (derive_ad_id offline_env listing_A1 (Fin 1420))
     |\<in>| seen_ads (process_ad offline_env fresh_engine listing_A1) \<and>
   ((\<lambda>e. process_ad offline_env e listing_A1) ^^ 3) (process_ad offline_env fresh_engine listing_A1) =
     process_ad offline_env fresh_engine listing_A1"
proof -
  have p: "py_float offline_env (ad_price_str listing_A1) = Inr (Fin 1420)"
    by (simp add: ad_price_str_def dget_def py_or_def py_float_def listing_A1_def)
  have s: "set_key (derive_ad_id offline_env listing_A1 (Fin 1420))
             |\<in>| seen_ads (process_ad offline_env fresh_engine listing_A1)"
    by (simp add: eval_defs offline_env_def fresh_engine_def DEFAULT_STATE_def listing_A1_def
        fcard_single)
  show ?thesis
    using seen_listing_skipped [OF p s, of 3] p s by simp
qed

subsection \<open>Buy amount and listing limits\<close>

lemma try_methods_events:
  "\<exists>rest. events (snd (try_methods cl aid amt names eng)) = events eng @ rest"
proof (induction names arbitrary: eng)
  case Nil
  show ?case by simp
next
  case (Cons name names)
  show ?case
  proof (cases "cl name")
    case None
    then show ?thesis using Cons.IH [of eng] by simp
  next
    case (Some m)
    let ?e = "log_event (GatewayCall name aid amt) (eng\<lparr>ticks := Suc (ticks eng)\<rparr>)"
    obtain rest where "events (snd (try_methods cl aid amt names ?e)) = events ?e @ rest"
      using Cons.IH [of ?e] by blast
    then show ?thesis
      using Some by (cases "m (ticks eng) aid amt") (simp_all add: Let_def)
  qed
qed

lemma create_buy_order_events:
  "\<exists>rest. events (snd (create_buy_order env eng ad a)) = events eng @ rest"
proof (cases "client env")
  case None
  then show ?thesis by (simp add: create_buy_order_def)
next
  case (Some cl)
  let ?id = "py_or (dget ad ''adId'') (py_or (dget ad ''advertisementId'')
               (py_or (dget ad ''id'') (dget ad ''ad_id'')))"
  obtain rest where "events (snd (try_methods cl ?id (str_int a) order_methods eng)) = events eng @ rest"
    using try_methods_events by blast
  then show ?thesis
    using Some by (simp add: create_buy_order_def Let_def case_prod_beta split: option.splits)
qed

lemma prune_history_events: "events (snd (prune_history env eng)) = events eng"
  by simp

lemma notify_events:
  "events (notify env i p a oid eng) =
     events eng @ [if create_task_fails env (ticks eng) then LogNotifyFailed else NotifyTask i p a oid]"
  by (simp add: notify_def Let_def)

lemma place_and_record_events_after:
  "\<exists>rest. events (place_and_record env eng ad i p a) =
     events (snd (create_buy_order env (log_event (LogAttempt i p a) eng) ad a)) @ rest"
  by (simp add: place_and_record_def Let_def case_prod_beta notify_events
      split: option.splits sum.splits)

lemma place_and_record_events:
  "\<exists>rest. events (place_and_record env eng ad i p a) = events eng @ LogAttempt i p a # rest"
proof -
  let ?e0 = "log_event (LogAttempt i p a) eng"
  obtain r1 where "events (snd (create_buy_order env ?e0 ad a)) = events ?e0 @ r1"
    using create_buy_order_events by blast
  moreover obtain r2 where "events (place_and_record env eng ad i p a) =
      events (snd (create_buy_order env ?e0 ad a)) @ r2"
    using place_and_record_events_after by blast
  ultimately show ?thesis by simp
qed

lemma trunc_integral: "m = of_int \<lfloor>m\<rfloor> \<Longrightarrow> real_of_int (trunc m) = m"
  by (metis ceiling_of_int floor_of_int trunc_def)

lemma clamp_amount_Fin:
  "clamp_amount st (Fin m) = Inr (if real_of_int (min_buy st) < m then trunc m else min_buy st)"
  by (simp add: clamp_amount_def)

lemma str_int_12000: "str_int 12000 = ''12000''"
  by (simp add: str_int_def nat_digits_small nat_digits_large)

lemma str_int_1000000: "str_int 1000000 = ''1000000''"
  by (simp add: str_int_def nat_digits_small nat_digits_large)

lemmas fixture_defs =
  offline_env_def live_env_def fresh_engine_def DEFAULT_STATE_def order_methods_def


lemma set_max_buy_fields [simp]:
  "events (set_max_buy mb eng) = events eng"
  "ticks (set_max_buy mb eng) = ticks eng"
  "history (state (set_max_buy mb eng)) = history (state eng)"
  "bot_running (state (set_max_buy mb eng)) = bot_running (state eng)"
  by (simp_all add: set_max_buy_def)

lemma set_max_buy_ticks:
  "(set_max_buy mb eng)\<lparr>ticks := k\<rparr> = set_max_buy mb (eng\<lparr>ticks := k\<rparr>)"
  by (simp add: set_max_buy_def)

lemma worker_cycle_max_buy:
  "worker_cycle env (set_max_buy mb eng) = set_max_buy mb (worker_cycle env eng)"
proof (cases "prune_history env eng")
  case (Pair r eng1)
  then have "prune_history env (set_max_buy mb eng) = (r, set_max_buy mb eng1)"
    by (simp add: prune_history_max_buy)
  then show ?thesis
    using Pair
    by (cases r) (simp_all add: worker_cycle_def Let_def log_event_max_buy set_max_buy_ticks
        process_ads_max_buy)
qed








text \<open>
  For an integral finite \<^verbatim>\<open>minLimit\<close> the clamp is exact: the amount is the larger of
  \<^verbatim>\<open>min_buy\<close> and \<^verbatim>\<open>minLimit\<close>.
\<close>

lemma clamp_amount_integral:
  "m = of_int \<lfloor>m\<rfloor> \<Longrightarrow>
   \<exists>a. clamp_amount st (Fin m) = Inr a \<and> real_of_int a = max (real_of_int (min_buy st)) m"
  using trunc_integral [of m] by (simp add: clamp_amount_Fin max_def)


text \<open>
  The example of the specification: \<^verbatim>\<open>min_buy = 10000\<close>, \<^verbatim>\<open>minLimit = 12000\<close>,
  \<^verbatim>\<open>maxLimit = 50000\<close>; the gateway is called with amount \<open>12000\<close>.
\<close>

lemma run_12000:
   "events (process_ad live_env fresh_engine listing_12000) =
     [LogAttempt (PStr ''D4'') (Fin 1420) 12000,
      GatewayCall ''create_order'' (PStr ''D4'') ''12000'', SaveState,
      NotifyTask (PStr ''D4'') (Fin 1420) 12000 (RV (PStr ''O1''))]"
  by (simp add: eval_defs fixture_defs listing_12000_def fcard_single str_int_12000)

text \<open>
  Claim C3 at a failing input.  With \<^verbatim>\<open>min_buy = 10000\<close> and an in-band, unseen listing
  with \<^verbatim>\<open>minLimit = 12000.5\<close> and \<^verbatim>\<open>maxLimit = 50000\<close>, the test
  \<^verbatim>\<open>amount_fiat < ad_min\<close> holds and \<^verbatim>\<open>amount_fiat = int(ad_min)\<close> sets the amount to
  \<open>12000\<close>: the amount has not been raised to the listing's \<^verbatim>\<open>minLimit\<close>, it is still
  below it, and the SDK order method is called with \<open>12000\<close>.
\<close>

theorem fractional_min_limit_ordered_below:
  "py_float live_env (ad_price_str listing_fraction) = Inr (Fin 1420) \<and>
   in_band (state fresh_engine) (Fin 1420) \<and>
   set_key (derive_ad_id live_env listing_fraction (Fin 1420)) |\<notin>| seen_ads fresh_engine \<and>
   ad_min_limit live_env listing_fraction = Inr (Fin 12000.5) \<and>
   ad_max_limit live_env listing_fraction = Inr (Fin 50000) \<and>
   min_buy (state fresh_engine) = 10000 \<and>
   clamp_amount (state fresh_engine) (Fin 12000.5) = Inr 12000 \<and>
   real_of_int 12000 < (12000.5 :: real) \<and>
   real_of_int 12000 \<noteq> max (real_of_int 10000) 12000.5 \<and>
   events (process_ad live_env fresh_engine listing_fraction) =
     [LogAttempt (PStr ''E5'') (Fin 1420) 12000,
      GatewayCall ''create_order'' (PStr ''E5'') ''12000'', SaveState,
      NotifyTask (PStr ''E5'') (Fin 1420) 12000 (RV (PStr ''O1''))]"
  by (simp add: eval_defs fixture_defs listing_fraction_def fcard_single str_int_12000)




text \<open>
  The configured \<^verbatim>\<open>max_buy\<close> is never read: a run of the loop, and a whole iteration of
  the worker, from an engine that differs only in \<^verbatim>\<open>max_buy\<close> ends in the same engine up
  to that field, so the same orders are placed with the same amounts, the same records
  are written and the same identifiers are marked.
\<close>

lemma max_buy_independent:
  "process_ads env (set_max_buy mb eng) ads = set_max_buy mb (process_ads env eng ads) \<and>
   worker_cycle env (set_max_buy mb eng) = set_max_buy mb (worker_cycle env eng) \<and>
   events (worker_cycle env (set_max_buy mb eng)) = events (worker_cycle env eng) \<and>
   seen_ads (worker_cycle env (set_max_buy mb eng)) = seen_ads (worker_cycle env eng) \<and>
   history (state (worker_cycle env (set_max_buy mb eng))) = history (state (worker_cycle env eng))"
  by (simp add: process_ads_max_buy worker_cycle_max_buy)

text \<open>
  Claim C9 at a failing input.  With \<^verbatim>\<open>max_buy = 1000000\<close> and an in-band, unseen listing
  with \<^verbatim>\<open>minLimit = 1000000.5\<close>, greater than \<^verbatim>\<open>max_buy\<close> and not greater than
  \<^verbatim>\<open>maxLimit = 2000000\<close>, the clamp \<^verbatim>\<open>amount_fiat = int(ad_min)\<close> truncates and the SDK order
  method is called with \<open>1000000\<close>: an amount below the listing's \<^verbatim>\<open>minLimit\<close> that does not
  exceed \<^verbatim>\<open>max_buy\<close>.
\<close>

theorem fractional_min_limit_not_above_max_buy:
  "py_float live_env (ad_price_str listing_large) = Inr (Fin 1420) \<and>
   set_key (derive_ad_id live_env listing_large (Fin 1420)) |\<notin>| seen_ads fresh_engine \<and>
   in_band (state fresh_engine) (Fin 1420) \<and>
   ad_min_limit live_env listing_large = Inr (Fin 1000000.5) \<and>
   ad_max_limit live_env listing_large = Inr (Fin 2000000) \<and>
   real_of_int (max_buy (state fresh_engine)) < 1000000.5 \<and>
   float_le (Fin 1000000.5) (Fin 2000000) \<and>
   events (process_ad live_env fresh_engine listing_large) =
     [LogAttempt (PStr ''G7'') (Fin 1420) 1000000,
      GatewayCall ''create_order'' (PStr ''G7'') ''1000000'', SaveState,
      NotifyTask (PStr ''G7'') (Fin 1420) 1000000 (RV (PStr ''O1''))] \<and>
   real_of_int 1000000 < (1000000.5 :: real) \<and>
   \<not> max_buy (state fresh_engine) < 1000000"
  by (simp add: eval_defs fixture_defs listing_large_def fcard_single str_int_1000000)

subsection \<open>History pruning\<close>

lemma kept_cases:
  "kept t item \<longleftrightarrow>
     (case h_timestamp item of Naive ts \<Rightarrow> t - retention \<le> ts | Aware ts \<Rightarrow> t - retention \<le> ts
      | Malformed \<Rightarrow> True)"
  by (simp add: kept_def stamp_def retention_def split: ts_field.splits)

lemma window_examples:
  "kept 1700000000000000 (stored (Naive 1699913600000000))"
  "\<not> kept 1700000000000000 (stored (Naive 1699049600000000))"
  "kept 1700000000000000 (stored Malformed)"
  "kept 1700000000000000 (stored (Naive 1700003600000000))"
  by (simp_all add: kept_def stamp_def stored_def retention_def)

text \<open>
  Claim C7, amended.  After a prune invocation during which the clock reads \<open>t\<close>, on a
  history without offset-aware timestamps, the pruning completes and the history consists,
  in the original order, of exactly the prior records whose timestamp parses to an instant
  not earlier than 10 days before \<open>t\<close> (later instants included), together with the
  records whose timestamp fails to parse, which are taken as stamped at \<open>t\<close> and retained.
\<close>

theorem prune_keeps_window:
  assumes "\<forall>k. utcnow env k = t" and "no_aware (history (state eng))"
  shows "fst (prune_history env eng) = None \<and>
         history (state (snd (prune_history env eng))) = filter (kept t) (history (state eng)) \<and>
         (\<forall>item \<in> set (history (state eng)).
            (case h_timestamp item of Naive ts \<Rightarrow> t - retention \<le> ts | Aware ts \<Rightarrow> False
             | Malformed \<Rightarrow> True) \<longleftrightarrow>
            item \<in> set (history (state (snd (prune_history env eng)))))"
proof -
  have f: "fst (prune_history env eng) = None \<and>
      history (state (snd (prune_history env eng))) = filter (kept t) (history (state eng))"
    using assms by (rule prune_history_const)
  have "(case h_timestamp item of Naive ts \<Rightarrow> t - retention \<le> ts | Aware ts \<Rightarrow> False
          | Malformed \<Rightarrow> True) \<longleftrightarrow> kept t item"
    if "item \<in> set (history (state eng))" for item
  proof -
    from that assms(2) have "\<forall>ts. h_timestamp item \<noteq> Aware ts"
      by (auto simp: no_aware_def list_all_iff split: ts_field.splits)
    then show ?thesis
      by (simp add: kept_cases split: ts_field.splits)
  qed
  with f show ?thesis by auto
qed

text \<open>
  A record of one day ago, one of eleven days ago and one with a malformed timestamp.
\<close>

theorem prune_keeps_window_witness:
  "(\<forall>k. utcnow (frozen_env 1700000000000000) k = 1700000000000000) \<and>
   no_aware (history (state (engine_with
     [stored (Naive 1699913600000000), stored (Naive 1699049600000000), stored Malformed]))) \<and>
   fst (prune_history (frozen_env 1700000000000000) (engine_with
     [stored (Naive 1699913600000000), stored (Naive 1699049600000000), stored Malformed])) = None \<and>
   history (state (snd (prune_history (frozen_env 1700000000000000) (engine_with
     [stored (Naive 1699913600000000), stored (Naive 1699049600000000), stored Malformed])))) =
     [stored (Naive 1699913600000000), stored Malformed]"
proof -
  let ?h = "[stored (Naive 1699913600000000), stored (Naive 1699049600000000), stored Malformed]"
  have c: "\<forall>k. utcnow (frozen_env 1700000000000000) k = 1700000000000000"
    by (simp add: frozen_env_def)
  have h: "history (state (engine_with ?h)) = ?h"
    by (simp add: engine_with_def)
  have n0: "no_aware ?h"
    by (simp add: stored_def)
  have n: "no_aware (history (state (engine_with ?h)))"
    unfolding h by (rule n0)
  have "history (state (snd (prune_history (frozen_env 1700000000000000) (engine_with ?h)))) =
      filter (kept 1700000000000000) ?h"
    using prune_keeps_window [OF c n] unfolding h by blast
  moreover have "fst (prune_history (frozen_env 1700000000000000) (engine_with ?h)) = None"
    using prune_keeps_window [OF c n] by blast
  ultimately show ?thesis
    using c n by (simp add: window_examples)
qed

text \<open>
  Claim C7 as stated fails for a timestamp after the reference time: a record stamped one
  hour after \<open>t\<close> is retained, although its instant is not within the 10 days before
  \<open>t\<close>.
\<close>

theorem prune_keeps_window_counterexample:
  "history (state (snd (prune_history (frozen_env 1700000000000000)
      (engine_with [stored (Naive 1700003600000000)])))) = [stored (Naive 1700003600000000)] \<and>
   \<not> within_window_before 1700000000000000 1700003600000000"
  by (simp add: prune_history_def frozen_env_def engine_with_def stored_def retention_def
      within_window_before_def)

text \<open>
  Claim C8.  At a fixed reference time pruning is idempotent: a second invocation leaves
  the history, and the outcome, of the first.  An invocation changes nothing but the
  history (seen set, effects and configuration are untouched), and the history only by
  removing expired records: it becomes the sublist of the records that pass the cutoff
  test, or stays as it is when the comparison raises.
\<close>

theorem prune_idempotent:
  assumes "\<forall>k. utcnow env k = t"
  shows "history (state (snd (prune_history env (snd (prune_history env eng))))) =
           history (state (snd (prune_history env eng))) \<and>
         fst (prune_history env (snd (prune_history env eng))) = fst (prune_history env eng) \<and>
         seen_ads (snd (prune_history env eng)) = seen_ads eng \<and>
         events (snd (prune_history env eng)) = events eng \<and>
         same_config (state eng) (state (snd (prune_history env eng))) \<and>
         history (state (snd (prune_history env eng))) =
           (if no_aware (history (state eng)) then filter (kept t) (history (state eng))
            else history (state eng))"
proof (cases "no_aware (history (state eng))")
  case True
  let ?e1 = "snd (prune_history env eng)"
  have one: "fst (prune_history env eng) = None"
    "history (state ?e1) = filter (kept t) (history (state eng))"
    using prune_history_const [OF assms True] by simp_all
  have "no_aware (history (state ?e1))"
    using prune_history_no_aware [OF True, of env] by simp
  then have two: "fst (prune_history env ?e1) = None"
    "history (state (snd (prune_history env ?e1))) = filter (kept t) (history (state ?e1))"
    using prune_history_const [OF assms, of ?e1] by simp_all
  show ?thesis
    using True one two by simp
next
  case False
  let ?e1 = "snd (prune_history env eng)"
  have one: "fst (prune_history env eng) = Some TypeError" "state ?e1 = state eng"
    using prune_history_aware [OF False, of env] by simp_all
  then have "\<not> no_aware (history (state ?e1))"
    using False by simp
  then have two: "fst (prune_history env ?e1) = Some TypeError"
    "state (snd (prune_history env ?e1)) = state ?e1"
    using prune_history_aware [of ?e1 env] by simp_all
  show ?thesis
    using False one two by simp
qed

text \<open>
  The history of the previous example, pruned twice.
\<close>

theorem prune_idempotent_witness:
  "(\<forall>k. utcnow (frozen_env 1700000000000000) k = 1700000000000000) \<and>
   history (state (snd (prune_history (frozen_env 1700000000000000)
      (snd (prune_history (frozen_env 1700000000000000) (engine_with
         [stored (Naive 1699913600000000), stored (Naive 1699049600000000), stored Malformed])))))) =
   [stored (Naive 1699913600000000), stored Malformed] \<and>
   history (state (snd (prune_history (frozen_env 1700000000000000) (engine_with
         [stored (Naive 1699913600000000), stored (Naive 1699049600000000), stored Malformed])))) =
   [stored (Naive 1699913600000000), stored Malformed]"
proof -
  let ?h = "[stored (Naive 1699913600000000), stored (Naive 1699049600000000), stored Malformed]"
  have c: "\<forall>k. utcnow (frozen_env 1700000000000000) k = 1700000000000000"
    by (simp add: frozen_env_def)
  have h: "history (state (engine_with ?h)) = ?h"
    by (simp add: engine_with_def)
  have n: "no_aware ?h"
    by (simp add: stored_def)
  note t = prune_idempotent [OF c, of "engine_with ?h", unfolded h]
  from t n have one: "history (state (snd (prune_history (frozen_env 1700000000000000)
      (engine_with ?h)))) = filter (kept 1700000000000000) ?h"
    by presburger
  from t have two: "history (state (snd (prune_history (frozen_env 1700000000000000)
      (snd (prune_history (frozen_env 1700000000000000) (engine_with ?h)))))) =
      history (state (snd (prune_history (frozen_env 1700000000000000) (engine_with ?h))))"
    by blast
  show ?thesis
    using c by (simp add: two one window_examples)
qed

text \<open>
  An offset-aware timestamp, here one of some four months before the reference time: the
  comparison with the naive cutoff raises, so the invocation ends with \<^verbatim>\<open>TypeError\<close> and
  the history keeps the expired record.
\<close>

lemma prune_offset_aware_raises:
  "prune_history (frozen_env 1700000000000000) (engine_with [stored (Aware 1690000000000000)]) =
     (Some TypeError, (engine_with [stored (Aware 1690000000000000)])\<lparr>ticks := 1\<rparr>)"
  by (simp add: prune_history_def frozen_env_def engine_with_def fresh_engine_def stored_def)

subsection \<open>Order placement, history record and notification\<close>



lemma prune_items_head_kept:
  assumes "h_timestamp r = Naive ts" and "c \<le> ts" and "no_aware h"
  shows "\<exists>h'. fst (prune_items env c (r # h) k) = Some (r # h') \<and> no_aware h' \<and> set h' \<subseteq> set h"
  using prune_items_no_aware [OF assms(3), of env c k] assms(1,2)
  by (auto simp: case_prod_beta)

lemma insert_then_prune:
  assumes "no_aware (history (state eng))"
    and "utcnow env (Suc (ticks eng)) \<le> utcnow env (ticks eng) + retention"
  shows "\<exists>rest. fst (prune_history env (insert_record env ad i p a resp eng)) = None \<and>
     history (state (snd (prune_history env (insert_record env ad i p a resp eng)))) =
       \<lparr>h_order_response = resp, h_ad_id = i, h_ad_price = p, h_ad_raw = ad, h_amount = a,
        h_timestamp = Naive (utcnow env (ticks eng))\<rparr> # rest \<and>
     no_aware rest \<and> set rest \<subseteq> set (history (state eng))"
proof -
  let ?r = "\<lparr>h_order_response = resp, h_ad_id = i, h_ad_price = p, h_ad_raw = ad, h_amount = a,
        h_timestamp = Naive (utcnow env (ticks eng))\<rparr>"
  let ?e = "insert_record env ad i p a resp eng"
  have hist: "history (state ?e) = ?r # history (state eng)" and tk: "ticks ?e = Suc (ticks eng)"
    by (simp_all add: insert_record_def Let_def)
  have c: "utcnow env (ticks ?e) - retention \<le> utcnow env (ticks eng)"
    using assms(2) by (simp add: tk)
  obtain h' where h': "fst (prune_items env (utcnow env (ticks ?e) - retention)
        (?r # history (state eng)) (Suc (ticks ?e))) = Some (?r # h')"
      "no_aware h'" "set h' \<subseteq> set (history (state eng))"
    using prune_items_head_kept [of ?r "utcnow env (ticks eng)" "utcnow env (ticks ?e) - retention"
        "history (state eng)" env "Suc (ticks ?e)"] c assms(1)
    by auto
  show ?thesis
    using h' by (auto simp: prune_history_def Let_def case_prod_beta hist split: option.splits)
qed




lemma place_and_record_completes:
  assumes "no_aware (history (state eng))" and "steady_clock env"
    and "extract_order_id (fst (create_buy_order env (log_event (LogAttempt i p a) eng) ad a)) = Inr oid"
  shows "\<exists>ts rest. history (state (place_and_record env eng ad i p a)) =
           \<lparr>h_order_response = fst (create_buy_order env (log_event (LogAttempt i p a) eng) ad a),
            h_ad_id = i, h_ad_price = p, h_ad_raw = ad, h_amount = a,
            h_timestamp = Naive ts\<rparr> # rest \<and>
         (fcard (seen_ads eng) < 1000 \<longrightarrow> set_key i |\<in>| seen_ads (place_and_record env eng ad i p a))"
proof -
  let ?c = "create_buy_order env (log_event (LogAttempt i p a) eng) ad a"
  let ?e1 = "snd ?c"
  have na: "no_aware (history (state ?e1))"
    using assms(1) by simp
  have st: "utcnow env (Suc (ticks ?e1)) \<le> utcnow env (ticks ?e1) + retention"
    using assms(2) by (simp add: steady_clock_def)
  let ?p = "prune_history env (insert_record env ad i p a (fst ?c) ?e1)"
  obtain rest where pr: "fst ?p = None"
    "history (state (snd ?p)) =
       \<lparr>h_order_response = fst ?c, h_ad_id = i, h_ad_price = p, h_ad_raw = ad, h_amount = a,
        h_timestamp = Naive (utcnow env (ticks ?e1))\<rparr> # rest"
    using insert_then_prune [OF na st, of ad i p a "fst ?c"] by blast
  have seen: "seen_ads (snd ?p) = seen_ads eng"
    by simp
  let ?n = "notify env i p a oid (log_event SaveState (snd ?p))"
  have final: "place_and_record env eng ad i p a = mark_seen env i ?n"
    using assms(3) pr(1)
    by (simp add: place_and_record_def Let_def case_prod_beta split: option.splits)
  have card: "fcard (finsert (set_key i) (seen_ads eng)) \<le> 1000" if "fcard (seen_ads eng) < 1000"
    using that by (simp add: fcard_finsert_if)
  show ?thesis
    unfolding final
    using pr(2) seen card by (auto simp: mark_seen_def Let_def)
qed

lemma worker_cycle_loop:
  assumes "bot_running (state eng)" and "prune_history env eng = (None, eng1)"
  shows "worker_cycle env eng =
         process_ads env (eng1\<lparr>ticks := Suc (ticks eng1)\<rparr>) (online_ads env (ticks eng1)) \<and>
         loop_state env (eng1\<lparr>ticks := Suc (ticks eng1)\<rparr>)"
  using assms by (auto simp: worker_cycle_def Let_def process_ads_def intro: loop_state.enter)

lemma str_int_10000: "str_int 10000 = ''10000''"
  by (simp add: str_int_def nat_digits_small nat_digits_large)

lemma loop_engine_reached: "loop_state env loop_engine"
proof -
  have p: "prune_history env running_engine = (None, running_engine\<lparr>ticks := 1\<rparr>)"
    by (simp add: prune_history_def running_engine_def fresh_engine_def DEFAULT_STATE_def)
  have b: "bot_running (state running_engine)"
    by (simp add: running_engine_def)
  show ?thesis
    using loop_state.enter [OF b p] by (simp add: loop_engine_def numeral_2_eq_2)
qed






text \<open>
  Claim C5 at a failing input.  The order method returns the dictionary
  \<^verbatim>\<open>{"data": ["ok"]}\<close>: the order has been placed and the history record inserted, but
  \<^verbatim>\<open>(resp.get("data") or {}).get("orderId")\<close> raises \<^verbatim>\<open>AttributeError\<close>, the handler of the
  loop body logs it, and \<^verbatim>\<open>self.seen_ads.add(ad_id)\<close> is never reached: the seen set stays
  empty, no notification is dispatched, and presenting the listing again places a second
  order.
\<close>

theorem unreadable_response_not_marked_seen:
  "loop_state list_data_env loop_engine \<and>
   events (process_ad list_data_env loop_engine listing_A1) =
     [LogAttempt (PStr ''A1'') (Fin 1420) 10000,
      GatewayCall ''create_order'' (PStr ''A1'') ''10000'', SaveState,
      LogAdError AttributeError] \<and>
   map h_order_response (history (state (process_ad list_data_env loop_engine listing_A1))) =
     [RespDict [(''data'', RListV [PStr ''ok''])]] \<and>
   seen_ads (process_ad list_data_env loop_engine listing_A1) = {||} \<and>
   events (process_ad list_data_env (process_ad list_data_env loop_engine listing_A1) listing_A1) =
     [LogAttempt (PStr ''A1'') (Fin 1420) 10000,
      GatewayCall ''create_order'' (PStr ''A1'') ''10000'', SaveState,
      LogAdError AttributeError,
      LogAttempt (PStr ''A1'') (Fin 1420) 10000,
      GatewayCall ''create_order'' (PStr ''A1'') ''10000'', SaveState,
      LogAdError AttributeError]"
proof -
  have one: "process_ad list_data_env loop_engine listing_A1 =
     \<lparr>state = DEFAULT_STATE\<lparr>bot_running := True, history :=
        [\<lparr>h_order_response = RespDict [(''data'', RListV [PStr ''ok''])], h_ad_id = PStr ''A1'',
          h_ad_price = Fin 1420, h_ad_raw = listing_A1, h_amount = 10000,
          h_timestamp = Naive 1700000000000003\<rparr>]\<rparr>,
      seen_ads = {||}, ticks = 5,
      events = [LogAttempt (PStr ''A1'') (Fin 1420) 10000,
        GatewayCall ''create_order'' (PStr ''A1'') ''10000'', SaveState,
        LogAdError AttributeError]\<rparr>"
    by (simp add: eval_defs list_data_env_def offline_env_def loop_engine_def running_engine_def
        fresh_engine_def DEFAULT_STATE_def order_methods_def listing_A1_def str_int_10000)
  have two: "events (process_ad list_data_env (process_ad list_data_env loop_engine listing_A1) listing_A1) =
     [LogAttempt (PStr ''A1'') (Fin 1420) 10000,
      GatewayCall ''create_order'' (PStr ''A1'') ''10000'', SaveState,
      LogAdError AttributeError,
      LogAttempt (PStr ''A1'') (Fin 1420) 10000,
      GatewayCall ''create_order'' (PStr ''A1'') ''10000'', SaveState,
      LogAdError AttributeError]"
    unfolding one
    by (simp add: eval_defs list_data_env_def offline_env_def
        DEFAULT_STATE_def order_methods_def listing_A1_def str_int_10000)
  show ?thesis
    using loop_engine_reached [of list_data_env] two by (simp add: one)
qed

end
